theory Spec2Isabelle
  imports Main "HOL-Library.Char_ord" "HOL-Library.List_Lexorder"
begin

section \<open>Data model of \<^verbatim>\<open>swappable_falco_engine.cpp\<close>\<close>

text \<open>
  The two built-in event sources, the static members
  \<^verbatim>\<open>swappable_falco_engine::syscall_source\<close> and \<^verbatim>\<open>k8s_audit_source\<close> (lines 22-23).
\<close>

definition syscall_source :: string where
  "syscall_source = ''syscall''"

definition k8s_audit_source :: string where
  "k8s_audit_source = ''k8s_audit''"

text \<open>
  Types whose declarations live in headers outside the file. An inspector is a handle;
  the pointer \<^verbatim>\<open>sinsp *\<close> is a \<open>sinsp option\<close>, \<open>None\<close> being the null pointer. A plugin
  version is only ever rendered with \<^verbatim>\<open>as_string()\<close>, so it is carried by its rendering.
\<close>

datatype sinsp = Sinsp nat

type_synonym filter_check_list = "string list"

type_synonym priority_type = nat

datatype sinsp_version = Sinsp_version string

fun as_string :: "sinsp_version \<Rightarrow> string" where
  "as_string (Sinsp_version s) = s"

record plugin_info =
  name :: string
  plugin_version :: sinsp_version

text \<open>
  \<^verbatim>\<open>swappable_falco_engine::config\<close>: the fields are the ones the file reads
  (\<^verbatim>\<open>create_new\<close> reads them directly as \<^verbatim>\<open>m_config.field\<close>, so they are public
  members). \<^verbatim>\<open>std::set<std::string>\<close> is a set of strings; a \<^verbatim>\<open>std::list\<close> is a list.
\<close>

record config =
  json_output :: bool
  output_format :: string
  replace_container_info :: bool
  min_priority :: priority_type
  verbose :: bool
  event_sources :: "string set"
  plugin_infos :: "plugin_info list"
  disabled_rule_substrings :: "string list"
  disabled_rule_tags :: "string set"
  enabled_rule_tags :: "string set"

text \<open>
  The constructor \<^verbatim>\<open>config::config()\<close> (lines 25-29). Its initialiser list sets three
  flags and the event sources; strings and containers are default-constructed empty;
  \<^verbatim>\<open>min_priority\<close> is not initialised, so its value is a parameter here.
\<close>

definition config_ctor :: "priority_type \<Rightarrow> config" where
  "config_ctor indeterminate =
     \<lparr> json_output = False,
       output_format = [],
       replace_container_info = False,
       min_priority = indeterminate,
       verbose = False,
       event_sources = {syscall_source, k8s_audit_source},
       plugin_infos = [],
       disabled_rule_substrings = [],
       disabled_rule_tags = {},
       enabled_rule_tags = {} \<rparr>"

text \<open>\<^verbatim>\<open>config::contains_event_source\<close> (lines 35-38): \<^verbatim>\<open>find(source) != end()\<close>.\<close>

definition contains_event_source :: "config \<Rightarrow> string \<Rightarrow> bool" where
  "contains_event_source c source = (source \<in> event_sources c)"

subsection \<open>Rule files, load results and the engine under construction\<close>

record rulesfile =
  rf_name :: string
  rf_content :: string

text \<open>
  Modelled from the spec: \<^verbatim>\<open>falco_engine::load_result\<close> is declared outside the file;
  the spec's LoadDiagnostics is "success flag, error detail, warnings". The file reads
  only \<^verbatim>\<open>res.successful\<close> and hands the rest to \<^verbatim>\<open>as_string\<close>.
\<close>

record load_result =
  successful :: bool
  res_name :: string
  res_errors :: "string list"
  res_warnings :: "string list"

datatype filter_factory =
    Sinsp_filter_factory sinsp
  | Json_event_filter_factory
  | Sinsp_filter_factory_checks sinsp filter_check_list

datatype formatter_kind =
    Sinsp_evt_formatter_factory sinsp
  | Json_event_formatter_factory filter_factory
  | Sinsp_evt_formatter_factory_checks sinsp filter_check_list

datatype output_format_kind = OF_NORMAL | OF_JSON

record formatter_factory =
  fmt_kind :: formatter_kind
  fmt_output_format :: output_format_kind

record rule =
  rule_name :: string
  rule_tags :: "string set"
  rule_enabled :: bool

text \<open>
  Modelled from the spec: the class \<^verbatim>\<open>falco_engine\<close> is defined outside the file. The
  spec calls it an instance holding the global settings, the registered sources and the
  loaded rule set with its activation state.
\<close>

record falco_engine =
  eng_extra :: "string \<times> bool"
  eng_min_priority :: priority_type
  eng_sources :: "(string \<times> filter_factory \<times> formatter_factory) list"
  eng_rules :: "rule list"

text \<open>
  Modelled from the spec: \<^verbatim>\<open>make_shared<falco_engine>()\<close>, the engine's constructor: a
  fresh instance has no source and no rule. Its settings are overwritten by
  \<^verbatim>\<open>set_extra\<close> and \<^verbatim>\<open>set_min_priority\<close> before anything reads them.
\<close>

definition falco_engine_new :: falco_engine where
  "falco_engine_new =
     \<lparr> eng_extra = ([], False), eng_min_priority = 0, eng_sources = [], eng_rules = [] \<rparr>"

definition set_extra :: "string \<Rightarrow> bool \<Rightarrow> falco_engine \<Rightarrow> falco_engine" where
  "set_extra fmt replace_ci e = e\<lparr>eng_extra := (fmt, replace_ci)\<rparr>"

definition set_min_priority :: "priority_type \<Rightarrow> falco_engine \<Rightarrow> falco_engine" where
  "set_min_priority p e = e\<lparr>eng_min_priority := p\<rparr>"

definition add_source ::
  "string \<Rightarrow> filter_factory \<Rightarrow> formatter_factory \<Rightarrow> falco_engine \<Rightarrow> falco_engine" where
  "add_source source ff fmt e = e\<lparr>eng_sources := eng_sources e @ [(source, ff, fmt)]\<rparr>"

text \<open>
  Modelled from the spec: \<^verbatim>\<open>falco_engine::enable_rule(substring, enabled)\<close> sets the
  activation of "every rule whose name contains that substring" (every name contains the
  empty string, which is how the file disables all rules), and
  \<^verbatim>\<open>enable_rule_by_tag(tags, enabled)\<close> that of "every rule carrying any of those tags".
\<close>

definition is_substring :: "string \<Rightarrow> string \<Rightarrow> bool" where
  "is_substring sub s = (\<exists>i\<in>set [0..<Suc (length s)]. take (length sub) (drop i s) = sub)"

definition enable_rule :: "string \<Rightarrow> bool \<Rightarrow> falco_engine \<Rightarrow> falco_engine" where
  "enable_rule substring enabled e =
     e\<lparr>eng_rules :=
         map (\<lambda>r. if is_substring substring (rule_name r) then r\<lparr>rule_enabled := enabled\<rparr> else r)
           (eng_rules e)\<rparr>"

definition enable_rule_by_tag :: "string set \<Rightarrow> bool \<Rightarrow> falco_engine \<Rightarrow> falco_engine" where
  "enable_rule_by_tag tags enabled e =
     e\<lparr>eng_rules :=
         map (\<lambda>r. if rule_tags r \<inter> tags \<noteq> {} then r\<lparr>rule_enabled := enabled\<rparr> else r)
           (eng_rules e)\<rparr>"

text \<open>
  The collaborators whose code is outside the file are parameters of the build:
  \<^verbatim>\<open>falco_engine::load_rules(rf, verbose, all_events, res)\<close>, which changes the engine,
  fills the result and is taken to read the rule file only; \<^verbatim>\<open>load_result::as_string(include_filenames, include_warnings)\<close>; and
  \<^verbatim>\<open>falco_engine::is_plugin_compatible(name, version, required_version)\<close>, which returns
  its verdict and what it wrote to \<^verbatim>\<open>required_version\<close>.
\<close>

record collab =
  load_rules :: "falco_engine \<Rightarrow> rulesfile \<Rightarrow> bool \<Rightarrow> bool \<Rightarrow> falco_engine \<times> load_result"
  res_as_string :: "load_result \<Rightarrow> bool \<Rightarrow> bool \<Rightarrow> string"
  is_plugin_compatible :: "falco_engine \<Rightarrow> string \<Rightarrow> string \<Rightarrow> bool \<times> string"

subsection \<open>The object state\<close>

text \<open>
  The members of \<^verbatim>\<open>swappable_falco_engine\<close> that the file uses. \<open>'e\<close> is what a
  \<^verbatim>\<open>std::shared_ptr<falco_engine>\<close> refers to; a null shared pointer is \<open>None\<close>. The
  concurrent queue \<^verbatim>\<open>m_pending_falco_engine\<close> is a list, oldest candidate first, read
  in a sequential interleaving: \<^verbatim>\<open>push\<close> appends, \<^verbatim>\<open>try_pop\<close> takes the head.
\<close>

record 'e swappable_falco_engine =
  m_config :: config
  m_inspector :: "sinsp option"
  m_engine :: "'e option"
  m_pending_falco_engine :: "'e list"
  m_plugin_filter_checks :: filter_check_list

datatype falco_exception = Falco_exception string

definition push :: "'e \<Rightarrow> 'e list \<Rightarrow> 'e list" where
  "push x q = q @ [x]"

fun try_pop :: "'e list \<Rightarrow> ('e \<times> 'e list) option" where
  "try_pop [] = None"
| "try_pop (x # q) = Some (x, q)"

section \<open>The swap accessor\<close>

text \<open>The loop of \<^verbatim>\<open>engine()\<close> (lines 87-90): pop until the queue is empty.\<close>

function engine_drain :: "'e swappable_falco_engine \<Rightarrow> 'e swappable_falco_engine" where
  "engine_drain s =
     (case try_pop (m_pending_falco_engine s) of
        None \<Rightarrow> s
      | Some (new_engine, q) \<Rightarrow>
          engine_drain (s\<lparr>m_pending_falco_engine := q, m_engine := Some new_engine\<rparr>))"
  by pat_completeness auto
termination
proof (relation "measure (\<lambda>s. length (m_pending_falco_engine s))")
  show "wf (measure (\<lambda>s::'e swappable_falco_engine. length (m_pending_falco_engine s)))"
    by simp
next
  fix s :: "'e swappable_falco_engine" and x2 new_engine q
  assume "try_pop (m_pending_falco_engine s) = Some x2" and "(new_engine, q) = x2"
  then have "m_pending_falco_engine s = new_engine # q"
    by (cases "m_pending_falco_engine s") auto
  then show "(s\<lparr>m_pending_falco_engine := q, m_engine := Some new_engine\<rparr>, s)
      \<in> measure (\<lambda>s. length (m_pending_falco_engine s))"
    by simp
qed

declare engine_drain.simps [simp del]

text \<open>
  \<^verbatim>\<open>swappable_falco_engine::engine()\<close> (lines 83-98). The exception is the left
  summand; the queue has been drained when it is thrown.
\<close>

definition engine ::
  "'e swappable_falco_engine \<Rightarrow> (falco_exception + 'e) \<times> 'e swappable_falco_engine" where
  "engine s =
     (let s' = engine_drain s in
      case m_engine s' of
        None \<Rightarrow> (Inl (Falco_exception ''No engine, must call replace() first''), s')
      | Some e \<Rightarrow> (Inr e, s'))"

text \<open>The producer's side of the queue, line 117 of \<^verbatim>\<open>replace\<close>.\<close>

definition enqueue :: "'e \<Rightarrow> 'e swappable_falco_engine \<Rightarrow> 'e swappable_falco_engine" where
  "enqueue e s = s\<lparr>m_pending_falco_engine := push e (m_pending_falco_engine s)\<rparr>"

section \<open>The build: \<^verbatim>\<open>create_new\<close>\<close>

text \<open>
  \<^verbatim>\<open>falco_logger::log\<close> writes to the process log; the lines a call writes are returned
  with its result, each with its level.
\<close>

definition LOG_INFO :: nat where
  "LOG_INFO = 6"

type_synonym log_line = "nat \<times> string"

text \<open>
  The body of the loop over \<^verbatim>\<open>m_config.event_sources\<close> (lines 153-183): the pair of
  factories for one source, the formatter switched to JSON when \<^verbatim>\<open>json_output\<close> is set.
\<close>

definition source_factories ::
  "sinsp \<Rightarrow> filter_check_list \<Rightarrow> bool \<Rightarrow> string \<Rightarrow> filter_factory \<times> formatter_factory" where
  "source_factories insp checks json source =
     (let (filter_factory, kind) =
        (if source = syscall_source
         then (Sinsp_filter_factory insp, Sinsp_evt_formatter_factory insp)
         else if source = k8s_audit_source
         then (Json_event_filter_factory, Json_event_formatter_factory Json_event_filter_factory)
         else (Sinsp_filter_factory_checks insp checks,
               Sinsp_evt_formatter_factory_checks insp checks));
        formatter_factory =
          \<lparr>fmt_kind = kind, fmt_output_format = (if json then OF_JSON else OF_NORMAL)\<rparr>
      in (filter_factory, formatter_factory))"

text \<open>
  The loop itself (lines 151-186); a \<^verbatim>\<open>std::set\<close> is finite and is iterated in
  ascending order of its strings, compared byte by byte.
\<close>

definition add_sources ::
  "config \<Rightarrow> sinsp \<Rightarrow> filter_check_list \<Rightarrow> falco_engine \<Rightarrow> falco_engine" where
  "add_sources cfg insp checks ret =
     fold (\<lambda>source r.
             let (filter_factory, formatter_factory) =
                   source_factories insp checks (json_output cfg) source
             in add_source source filter_factory formatter_factory r)
          (sorted_list_of_set (event_sources cfg)) ret"

text \<open>
  The loop over the rule files (lines 198-215), on the triple of the engine under
  construction, the flag \<^verbatim>\<open>successful\<close> and the stream \<^verbatim>\<open>os\<close>.
\<close>

fun load_files ::
  "collab \<Rightarrow> bool \<Rightarrow> bool \<Rightarrow> bool \<Rightarrow> rulesfile list \<Rightarrow>
   falco_engine \<times> bool \<times> string \<Rightarrow> falco_engine \<times> bool \<times> string" where
  "load_files cb vb include_filenames include_warnings [] acc = acc"
| "load_files cb vb include_filenames include_warnings (rf # rfs) (ret, all_ok, os) =
     (let all_events = False;
          (ret', res) = load_rules cb ret rf vb all_events;
          os' = os @ res_as_string cb res include_filenames include_warnings;
          all_ok' = (if \<not> successful res then False else all_ok)
      in load_files cb vb include_filenames include_warnings rfs (ret', all_ok', os'))"

text \<open>
  The loop over \<^verbatim>\<open>m_config.plugin_infos\<close> (lines 226-236): the error string of the
  first incompatible plugin, if there is one.
\<close>

fun check_plugins :: "collab \<Rightarrow> falco_engine \<Rightarrow> plugin_info list \<Rightarrow> string option" where
  "check_plugins cb ret [] = None"
| "check_plugins cb ret (info # infos) =
     (let (compatible, required_version) =
            is_plugin_compatible cb ret (name info) (as_string (plugin_version info))
      in if \<not> compatible
         then Some (''Plugin '' @ name info @ '' version '' @ as_string (plugin_version info)
                    @ '' not compatible with required plugin version '' @ required_version)
         else check_plugins cb ret infos)"

text \<open>The enabling and disabling of rules (lines 238-265) and the lines it logs.\<close>

definition apply_policy :: "config \<Rightarrow> falco_engine \<Rightarrow> falco_engine" where
  "apply_policy cfg ret =
     (let ret1 = fold (\<lambda>substring r. enable_rule substring False r)
                   (disabled_rule_substrings cfg) ret;
          ret2 = (if disabled_rule_tags cfg \<noteq> {}
                  then enable_rule_by_tag (disabled_rule_tags cfg) False ret1
                  else ret1);
          ret3 = (if enabled_rule_tags cfg \<noteq> {}
                  then (let all_rules = [] in
                        enable_rule_by_tag (enabled_rule_tags cfg) True
                          (enable_rule all_rules False ret2))
                  else ret2)
      in ret3)"

definition policy_log :: "config \<Rightarrow> log_line list" where
  "policy_log cfg =
     map (\<lambda>substring. (LOG_INFO, ''Disabling rules matching substring: '' @ substring @ [CHR 0x0A]))
       (disabled_rule_substrings cfg)
     @ map (\<lambda>tag. (LOG_INFO, ''Disabling rules with tag: '' @ tag @ [CHR 0x0A]))
         (sorted_list_of_set (disabled_rule_tags cfg))
     @ map (\<lambda>tag. (LOG_INFO, ''Enabling rules with tag: '' @ tag @ [CHR 0x0A]))
         (sorted_list_of_set (enabled_rule_tags cfg))"

text \<open>The engine as it stands when the loading of rule files begins (lines 135-186).\<close>

definition prepared :: "config \<Rightarrow> sinsp \<Rightarrow> filter_check_list \<Rightarrow> falco_engine" where
  "prepared cfg insp checks =
     add_sources cfg insp checks
       (set_min_priority (min_priority cfg)
          (set_extra (output_format cfg) (replace_container_info cfg) falco_engine_new))"

text \<open>
  \<^verbatim>\<open>swappable_falco_engine::create_new\<close> (lines 132-268). It returns the shared pointer
  (\<open>None\<close> for \<^verbatim>\<open>NULL\<close>), the final value of the output parameter \<^verbatim>\<open>errstr\<close> and the
  lines logged.
\<close>

definition create_new ::
  "collab \<Rightarrow> falco_engine swappable_falco_engine \<Rightarrow> rulesfile list \<Rightarrow>
   falco_engine option \<times> string \<times> log_line list" where
  "create_new cb s rulesfiles =
     (case m_inspector s of
        None \<Rightarrow> (None, ''No inspector provided yet'', [])
      | Some insp \<Rightarrow>
          (let cfg = m_config s;
               ret = prepared cfg insp (m_plugin_filter_checks s);
               include_filenames = (length rulesfiles > 1);
               include_warnings = verbose cfg;
               (ret, all_ok, os) =
                  load_files cb (verbose cfg) include_filenames include_warnings rulesfiles
                    (ret, True, []);
               errstr = os
           in if \<not> all_ok then (None, errstr, [])
              else (case check_plugins cb ret (plugin_infos cfg) of
                      Some msg \<Rightarrow> (None, msg, [])
                    | None \<Rightarrow> (Some (apply_policy cfg ret), errstr, policy_log cfg))))"

section \<open>The operations of the object\<close>

text \<open>The constructor (lines 64-66); the raw pointer member is not initialised.\<close>

definition swappable_falco_engine_ctor ::
  "priority_type \<Rightarrow> sinsp option \<Rightarrow> 'e swappable_falco_engine" where
  "swappable_falco_engine_ctor indeterminate_priority indeterminate_inspector =
     \<lparr> m_config = config_ctor indeterminate_priority,
       m_inspector = indeterminate_inspector,
       m_engine = None,
       m_pending_falco_engine = [],
       m_plugin_filter_checks = [] \<rparr>"

text \<open>
  \<^verbatim>\<open>replace\<close> (lines 105-120), \<^verbatim>\<open>validate\<close> (lines 122-130) and \<^verbatim>\<open>init\<close> (lines
  73-81): the returned flag, \<^verbatim>\<open>errstr\<close>, the lines logged and the state afterwards.
\<close>

definition replace ::
  "collab \<Rightarrow> rulesfile list \<Rightarrow> falco_engine swappable_falco_engine \<Rightarrow>
   bool \<times> string \<times> log_line list \<times> falco_engine swappable_falco_engine" where
  "replace cb rulesfiles s =
     (let (new_engine, errstr, lg) = create_new cb s rulesfiles
      in case new_engine of
           None \<Rightarrow> (False, errstr, lg, s)
         | Some e \<Rightarrow> (True, errstr, lg, enqueue e s))"

definition validate ::
  "collab \<Rightarrow> rulesfile list \<Rightarrow> falco_engine swappable_falco_engine \<Rightarrow>
   bool \<times> string \<times> log_line list \<times> falco_engine swappable_falco_engine" where
  "validate cb rulesfiles s =
     (let (new_engine, errstr, lg) = create_new cb s rulesfiles
      in (new_engine \<noteq> None, errstr, lg, s))"

definition init ::
  "collab \<Rightarrow> config \<Rightarrow> sinsp option \<Rightarrow> falco_engine swappable_falco_engine \<Rightarrow>
   bool \<times> string \<times> log_line list \<times> falco_engine swappable_falco_engine" where
  "init cb cfg inspector s =
     (let s' = s\<lparr>m_config := cfg, m_inspector := inspector\<rparr>;
          empty = []
      in replace cb empty s')"

text \<open>
  \<^verbatim>\<open>open_files\<close> (lines 40-62). \<^verbatim>\<open>rulesfile::load(filename, errstr)\<close> is outside the
  file: the parameter \<open>ld\<close> gives, for a file name, the flag it returns, the state it
  leaves the default-constructed entry in, and the error it writes. The loop writes that
  error to the \<^verbatim>\<open>errstr\<close> declared in its body.
\<close>

fun open_files_loop ::
  "(string \<Rightarrow> bool \<times> rulesfile \<times> string) \<Rightarrow> string list \<Rightarrow> rulesfile list \<Rightarrow>
   bool \<times> rulesfile list" where
  "open_files_loop ld [] rulesfiles = (True, rulesfiles)"
| "open_files_loop ld (filename # filenames) rulesfiles =
     (let (loaded, rf, local_errstr) = ld filename;
          rulesfiles' = rulesfiles @ [rf]
      in if \<not> loaded then (False, rulesfiles')
         else open_files_loop ld filenames rulesfiles')"

definition open_files ::
  "(string \<Rightarrow> bool \<times> rulesfile \<times> string) \<Rightarrow> string list \<Rightarrow> rulesfile list \<Rightarrow> string \<Rightarrow>
   bool \<times> rulesfile list \<times> string" where
  "open_files ld filenames rulesfiles errstr =
     (case open_files_loop ld filenames [] of
        (False, rulesfiles') \<Rightarrow> (False, rulesfiles', errstr)
      | (True, rulesfiles') \<Rightarrow> (True, rulesfiles', []))"

text \<open>
  Call sequences on one object: each call with the flag it returned (for the accessor,
  whether it returned rather than threw) and the state it left.
\<close>

datatype call =
    Init config "sinsp option"
  | Replace "rulesfile list"
  | Validate "rulesfile list"
  | Engine

fun call_step ::
  "collab \<Rightarrow> call \<Rightarrow> falco_engine swappable_falco_engine \<Rightarrow>
   bool \<times> falco_engine swappable_falco_engine" where
  "call_step cb (Init cfg inspector) s =
     (case init cb cfg inspector s of (ok, errstr, lg, s') \<Rightarrow> (ok, s'))"
| "call_step cb (Replace rulesfiles) s =
     (case replace cb rulesfiles s of (ok, errstr, lg, s') \<Rightarrow> (ok, s'))"
| "call_step cb (Validate rulesfiles) s =
     (case validate cb rulesfiles s of (ok, errstr, lg, s') \<Rightarrow> (ok, s'))"
| "call_step cb Engine s =
     (case engine s of (Inl ex, s') \<Rightarrow> (False, s') | (Inr e, s') \<Rightarrow> (True, s'))"

fun run_calls ::
  "collab \<Rightarrow> call list \<Rightarrow> falco_engine swappable_falco_engine \<Rightarrow>
   bool list \<times> falco_engine swappable_falco_engine" where
  "run_calls cb [] s = ([], s)"
| "run_calls cb (c # cs) s =
     (let (ok, s') = call_step cb c s;
          (oks, s'') = run_calls cb cs s'
      in (ok # oks, s''))"

section \<open>What the loading loop produces\<close>

text \<open>
  The result of each \<^verbatim>\<open>load_rules\<close> call of the loop, in file order, and the engine
  after the loop: file \<open>i\<close> is loaded into the engine left by the files before it.
\<close>

fun load_results :: "collab \<Rightarrow> bool \<Rightarrow> rulesfile list \<Rightarrow> falco_engine \<Rightarrow> load_result list" where
  "load_results cb vb [] ret = []"
| "load_results cb vb (rf # rfs) ret =
     snd (load_rules cb ret rf vb False)
       # load_results cb vb rfs (fst (load_rules cb ret rf vb False))"

fun loaded_engine :: "collab \<Rightarrow> bool \<Rightarrow> rulesfile list \<Rightarrow> falco_engine \<Rightarrow> falco_engine" where
  "loaded_engine cb vb [] ret = ret"
| "loaded_engine cb vb (rf # rfs) ret =
     loaded_engine cb vb rfs (fst (load_rules cb ret rf vb False))"

text \<open>The report the loop writes to \<^verbatim>\<open>os\<close>: the renderings of the results, in order.\<close>

definition report :: "collab \<Rightarrow> bool \<Rightarrow> bool \<Rightarrow> load_result list \<Rightarrow> string" where
  "report cb include_filenames include_warnings results =
     concat (map (\<lambda>res. res_as_string cb res include_filenames include_warnings) results)"

text \<open>
  The load results of a build on state \<open>s\<close> with inspector \<open>insp\<close>, and the engine the
  plugin check and the activation policy then see.
\<close>

definition build_results ::
  "collab \<Rightarrow> falco_engine swappable_falco_engine \<Rightarrow> sinsp \<Rightarrow> rulesfile list \<Rightarrow> load_result list" where
  "build_results cb s insp rfs =
     load_results cb (verbose (m_config s)) rfs
       (prepared (m_config s) insp (m_plugin_filter_checks s))"

definition build_loaded ::
  "collab \<Rightarrow> falco_engine swappable_falco_engine \<Rightarrow> sinsp \<Rightarrow> rulesfile list \<Rightarrow> falco_engine" where
  "build_loaded cb s insp rfs =
     loaded_engine cb (verbose (m_config s)) rfs
       (prepared (m_config s) insp (m_plugin_filter_checks s))"

text \<open>The error string of line 232, for a plugin and the version the rules require.\<close>

definition incompatible_message :: "plugin_info \<Rightarrow> string \<Rightarrow> string" where
  "incompatible_message info required_version =
     ''Plugin '' @ name info @ '' version '' @ as_string (plugin_version info)
     @ '' not compatible with required plugin version '' @ required_version"

section \<open>Notions used to state the properties\<close>

text \<open>
  The engine the consumer's next call of the accessor returns, if any: the newest
  pending candidate, or the active engine when nothing is pending.
\<close>

definition observed :: "'e swappable_falco_engine \<Rightarrow> 'e option" where
  "observed s =
     (if m_pending_falco_engine s = [] then m_engine s
      else Some (last (m_pending_falco_engine s)))"

text \<open>
  The calls that can promote an engine, and the call sequences in which none of them
  returned true.
\<close>

fun is_producer :: "call \<Rightarrow> bool" where
  "is_producer (Init cfg inspector) = True"
| "is_producer (Replace rulesfiles) = True"
| "is_producer (Validate rulesfiles) = False"
| "is_producer Engine = False"

fun none_promoted ::
  "collab \<Rightarrow> call list \<Rightarrow> falco_engine swappable_falco_engine \<Rightarrow> bool" where
  "none_promoted cb [] s = True"
| "none_promoted cb (c # cs) s =
     ((is_producer c \<longrightarrow> \<not> fst (call_step cb c s))
      \<and> none_promoted cb cs (snd (call_step cb c s)))"

section \<open>A small instance of the collaborators\<close>

text \<open>
  A loader for examples: a file whose content is \<open>bad\<close> fails and leaves the engine as
  it is; any other file adds one enabled rule, named by the content and tagged with the
  file name. A plugin \<open>json\<close> is compatible at version \<open>2.0.0\<close> only.
\<close>

definition demo_load_rules ::
  "falco_engine \<Rightarrow> rulesfile \<Rightarrow> bool \<Rightarrow> bool \<Rightarrow> falco_engine \<times> load_result" where
  "demo_load_rules e rf vb all_events =
     (if rf_content rf = ''bad''
      then (e, \<lparr>successful = False, res_name = rf_name rf,
                res_errors = [''syntax error''], res_warnings = []\<rparr>)
      else (e\<lparr>eng_rules := eng_rules e @
                 [\<lparr>rule_name = rf_content rf, rule_tags = {rf_name rf}, rule_enabled = True\<rparr>]\<rparr>,
            \<lparr>successful = True, res_name = rf_name rf,
             res_errors = [], res_warnings = [''unused macro'']\<rparr>))"

definition demo_as_string :: "load_result \<Rightarrow> bool \<Rightarrow> bool \<Rightarrow> string" where
  "demo_as_string res include_filenames include_warnings =
     (if include_filenames then res_name res @ '': '' else [])
     @ (if successful res then ''ok'' else concat (res_errors res))
     @ (if include_warnings then concat (res_warnings res) else [])
     @ '';''"

definition demo_is_plugin_compatible :: "falco_engine \<Rightarrow> string \<Rightarrow> string \<Rightarrow> bool \<times> string" where
  "demo_is_plugin_compatible e plugin version =
     (if plugin = ''json'' \<and> version \<noteq> ''2.0.0'' then (False, ''2.0.0'') else (True, []))"

definition demo_collab :: collab where
  "demo_collab =
     \<lparr> load_rules = demo_load_rules,
       res_as_string = demo_as_string,
       is_plugin_compatible = demo_is_plugin_compatible \<rparr>"

definition demo_state :: "falco_engine swappable_falco_engine" where
  "demo_state =
     \<lparr> m_config = config_ctor 0,
       m_inspector = Some (Sinsp 1),
       m_engine = None,
       m_pending_falco_engine = [],
       m_plugin_filter_checks = [] \<rparr>"

definition good_file :: rulesfile where
  "good_file = \<lparr>rf_name = ''a.yaml'', rf_content = ''shell in container''\<rparr>"

definition bad_file :: rulesfile where
  "bad_file = \<lparr>rf_name = ''b.yaml'', rf_content = ''bad''\<rparr>"

text \<open>A configured plugin the example rules are not compatible with.\<close>

definition json_plugin :: plugin_info where
  "json_plugin = \<lparr>name = ''json'', plugin_version = Sinsp_version ''1.0.0''\<rparr>"

definition plugin_state :: "falco_engine swappable_falco_engine" where
  "plugin_state = demo_state\<lparr>m_config := (config_ctor 0)\<lparr>plugin_infos := [json_plugin]\<rparr>\<rparr>"

text \<open>Example values: a configuration with all three kinds of directive, and rules.\<close>

definition tag_config :: config where
  "tag_config =
     (config_ctor 0)\<lparr>disabled_rule_substrings := [''shell''],
                     disabled_rule_tags := {''network''},
                     enabled_rule_tags := {''filesystem''}\<rparr>"

definition tagged_engine :: falco_engine where
  "tagged_engine =
     falco_engine_new\<lparr>eng_rules :=
       [\<lparr>rule_name = ''write below etc'', rule_tags = {''filesystem''}, rule_enabled = False\<rparr>,
        \<lparr>rule_name = ''shell in container'', rule_tags = {''container'', ''filesystem''},
         rule_enabled = True\<rparr>,
        \<lparr>rule_name = ''outbound connection'', rule_tags = {''network''}, rule_enabled = True\<rparr>,
        \<lparr>rule_name = ''untagged'', rule_tags = {}, rule_enabled = True\<rparr>]\<rparr>"

definition cleared_config :: config where
  "cleared_config = (config_ctor 0)\<lparr>event_sources := {}\<rparr>"

definition demo_load :: "string \<Rightarrow> bool \<times> rulesfile \<times> string" where
  "demo_load filename =
     (if filename = ''missing.yaml''
      then (False, \<lparr>rf_name = filename, rf_content = []\<rparr>, ''cannot open file'')
      else (True, \<lparr>rf_name = filename, rf_content = ''rule''\<rparr>, []))"

text \<open>A second loadable file, and the plugin example with \<^verbatim>\<open>verbose\<close> set.\<close>

definition other_file :: rulesfile where
  "other_file = \<lparr>rf_name = ''c.yaml'', rf_content = ''write below etc''\<rparr>"

definition verbose_plugin_state :: "falco_engine swappable_falco_engine" where
  "verbose_plugin_state =
     demo_state\<lparr>m_config := (config_ctor 0)\<lparr>verbose := True, plugin_infos := [json_plugin]\<rparr>\<rparr>"

section \<open>Properties of the accessor\<close>

lemma engine_drain_eq:
  "engine_drain s =
     s\<lparr>m_pending_falco_engine := [],
       m_engine := (if m_pending_falco_engine s = [] then m_engine s
                    else Some (last (m_pending_falco_engine s)))\<rparr>"
proof (induction s rule: engine_drain.induct)
  case (1 s)
  show ?case
  proof (cases "m_pending_falco_engine s")
    case Nil
    then show ?thesis
      by (subst engine_drain.simps) simp
  next
    case (Cons x q)
    then show ?thesis
      using "1.IH" [of "(x, q)" x q] by (subst engine_drain.simps) simp
  qed
qed

text \<open>
  C1. If candidates \<open>A\<close> then \<open>B\<close> are enqueued (A strictly before B), one call of the
  accessor empties the pending queue, makes \<open>B\<close> the active engine and returns \<open>B\<close>;
  a second call with nothing enqueued in between returns \<open>B\<close> again and leaves the
  state as it is. This holds whatever was active or pending before A was enqueued.
\<close>

theorem engine_returns_last_enqueued:
  "engine (enqueue B (enqueue A s)) =
      (Inr B, s\<lparr>m_pending_falco_engine := [], m_engine := Some B\<rparr>)
   \<and> m_pending_falco_engine (snd (engine (enqueue B (enqueue A s)))) = []
   \<and> m_engine (snd (engine (enqueue B (enqueue A s)))) = Some B
   \<and> engine (snd (engine (enqueue B (enqueue A s)))) =
       (Inr B, snd (engine (enqueue B (enqueue A s))))"
  by (simp add: engine_def engine_drain_eq enqueue_def push_def)

section \<open>Properties of the build\<close>

lemma load_files_eq:
  "load_files cb vb incf incw rfs (ret, all_ok, os) =
     (loaded_engine cb vb rfs ret,
      all_ok \<and> list_all successful (load_results cb vb rfs ret),
      os @ report cb incf incw (load_results cb vb rfs ret))"
  by (induction rfs arbitrary: ret all_ok os)
     (auto simp: report_def split: prod.splits)

lemma create_new_no_inspector:
  "m_inspector s = None \<Longrightarrow> create_new cb s rfs = (None, ''No inspector provided yet'', [])"
  by (simp add: create_new_def)

lemma create_new_eq:
  "m_inspector s = Some insp \<Longrightarrow>
   create_new cb s rfs =
     (let cfg = m_config s;
          ret0 = prepared cfg insp (m_plugin_filter_checks s);
          results = load_results cb (verbose cfg) rfs ret0;
          ret = loaded_engine cb (verbose cfg) rfs ret0;
          errstr = report cb (1 < length rfs) (verbose cfg) results
      in if \<not> list_all successful results then (None, errstr, [])
         else (case check_plugins cb ret (plugin_infos cfg) of
                 Some msg \<Rightarrow> (None, msg, [])
               | None \<Rightarrow> (Some (apply_policy cfg ret), errstr, policy_log cfg)))"
  by (simp add: create_new_def load_files_eq Let_def)

lemma replace_failure_keeps_state:
  "fst (create_new cb s rfs) = None \<Longrightarrow>
   replace cb rfs s = (False, fst (snd (create_new cb s rfs)), snd (snd (create_new cb s rfs)), s)"
  by (cases "create_new cb s rfs") (simp add: replace_def)

lemma replace_success_enqueues:
  "fst (create_new cb s rfs) = Some e \<Longrightarrow>
   replace cb rfs s =
     (True, fst (snd (create_new cb s rfs)), snd (snd (create_new cb s rfs)), enqueue e s)"
  by (cases "create_new cb s rfs") (simp add: replace_def)

text \<open>
  C2. With an inspector attached, if the load of at least one of the rule files fails,
  \<^verbatim>\<open>replace\<close> returns false and leaves the object as it was: nothing is added to the
  pending queue, the active engine is the one from before the call, and the accessor
  gives what it would have given before the call.
\<close>

theorem replace_failed_load_keeps_engine:
  assumes "m_inspector s = Some insp"
    and "res \<in> set (load_results cb (verbose (m_config s)) rulesfiles
                      (prepared (m_config s) insp (m_plugin_filter_checks s)))"
    and "\<not> successful res"
  shows "fst (replace cb rulesfiles s) = False
       \<and> snd (snd (snd (replace cb rulesfiles s))) = s
       \<and> m_pending_falco_engine (snd (snd (snd (replace cb rulesfiles s))))
           = m_pending_falco_engine s
       \<and> m_engine (snd (snd (snd (replace cb rulesfiles s)))) = m_engine s
       \<and> engine (snd (snd (snd (replace cb rulesfiles s)))) = engine s"
proof -
  from assms(2,3) have "\<not> list_all successful
      (load_results cb (verbose (m_config s)) rulesfiles
         (prepared (m_config s) insp (m_plugin_filter_checks s)))"
    by (auto simp: list_all_iff)
  then have "fst (create_new cb s rulesfiles) = None"
    using assms(1) by (simp add: create_new_eq Let_def)
  then show ?thesis
    by (simp add: replace_failure_keeps_state)
qed

theorem replace_failed_load_witness:
  "fst (replace demo_collab [good_file, bad_file] demo_state) = False
   \<and> snd (snd (snd (replace demo_collab [good_file, bad_file] demo_state))) = demo_state
   \<and> fst (engine (snd (snd (snd (replace demo_collab [good_file, bad_file] demo_state)))))
       = Inl (Falco_exception ''No engine, must call replace() first'')"
proof -
  have insp: "m_inspector demo_state = Some (Sinsp 1)"
    by (simp add: demo_state_def)
  have res: "\<lparr>successful = False, res_name = ''b.yaml'',
              res_errors = [''syntax error''], res_warnings = []\<rparr>
      \<in> set (load_results demo_collab (verbose (m_config demo_state)) [good_file, bad_file]
                (prepared (m_config demo_state) (Sinsp 1) (m_plugin_filter_checks demo_state)))"
    by (simp add: demo_collab_def demo_load_rules_def good_file_def bad_file_def)
  have eng: "fst (engine demo_state) = Inl (Falco_exception ''No engine, must call replace() first'')"
    by (simp add: engine_def engine_drain_eq demo_state_def)
  show ?thesis
    using replace_failed_load_keeps_engine [OF insp res] eng by simp
qed

text \<open>
  C3. \<^verbatim>\<open>validate\<close> and \<^verbatim>\<open>replace\<close> both run \<^verbatim>\<open>create_new\<close> on the same object state
  and files: \<^verbatim>\<open>validate\<close> returns true exactly when the build returns an engine, gives
  the build's error string, and leaves the object (pending queue and active engine
  included) unchanged; \<^verbatim>\<open>replace\<close> on the same state returns the same flag and error
  string; and after a successful \<^verbatim>\<open>validate\<close>, \<^verbatim>\<open>replace\<close> of the same files succeeds on
  the state \<^verbatim>\<open>validate\<close> left, and on every state with the same configuration, inspector
  and plugin filter checks.
\<close>

theorem validate_and_replace_share_build:
  "fst (validate cb rulesfiles s) = (fst (create_new cb s rulesfiles) \<noteq> None)
   \<and> fst (snd (validate cb rulesfiles s)) = fst (snd (create_new cb s rulesfiles))
   \<and> snd (snd (snd (validate cb rulesfiles s))) = s
   \<and> fst (replace cb rulesfiles s) = fst (validate cb rulesfiles s)
   \<and> fst (snd (replace cb rulesfiles s)) = fst (snd (validate cb rulesfiles s))
   \<and> (fst (validate cb rulesfiles s) \<longrightarrow>
        fst (replace cb rulesfiles (snd (snd (snd (validate cb rulesfiles s))))))
   \<and> (\<forall>t. m_config t = m_config s \<and> m_inspector t = m_inspector s
           \<and> m_plugin_filter_checks t = m_plugin_filter_checks s
           \<and> fst (validate cb rulesfiles s)
         \<longrightarrow> fst (replace cb rulesfiles t))"
proof -
  have same: "create_new cb t rulesfiles = create_new cb s rulesfiles"
    if "m_config t = m_config s" "m_inspector t = m_inspector s"
       "m_plugin_filter_checks t = m_plugin_filter_checks s" for t
    using that by (cases "m_inspector s") (simp_all add: create_new_def)
  have v: "validate cb rulesfiles s =
      (fst (create_new cb s rulesfiles) \<noteq> None, fst (snd (create_new cb s rulesfiles)),
       snd (snd (create_new cb s rulesfiles)), s)"
    by (cases "create_new cb s rulesfiles") (simp add: validate_def)
  have r: "fst (replace cb rulesfiles t) = (fst (create_new cb t rulesfiles) \<noteq> None)
         \<and> fst (snd (replace cb rulesfiles t)) = fst (snd (create_new cb t rulesfiles))" for t
    by (cases "create_new cb t rulesfiles") (simp add: replace_def split: option.splits)
  have gen: "fst (replace cb rulesfiles t)"
    if "m_config t = m_config s" "m_inspector t = m_inspector s"
       "m_plugin_filter_checks t = m_plugin_filter_checks s"
       "fst (validate cb rulesfiles s)" for t
  proof -
    have "create_new cb t rulesfiles = create_new cb s rulesfiles"
      using that(1-3) by (rule same)
    with that(4) show ?thesis
      by (simp add: v r)
  qed
  then have "\<forall>t. m_config t = m_config s \<and> m_inspector t = m_inspector s
           \<and> m_plugin_filter_checks t = m_plugin_filter_checks s
           \<and> fst (validate cb rulesfiles s)
         \<longrightarrow> fst (replace cb rulesfiles t)"
    by blast
  then show ?thesis
    by (simp add: v r)
qed

theorem validate_and_replace_witness:
  "fst (validate demo_collab [good_file] demo_state)
   \<and> fst (replace demo_collab [good_file] demo_state)
   \<and> fst (replace demo_collab [good_file]
            (demo_state\<lparr>m_pending_falco_engine := [falco_engine_new]\<rparr>))"
proof -
  have ok: "fst (validate demo_collab [good_file] demo_state)"
    by (simp add: validate_def create_new_def demo_state_def demo_collab_def
        demo_load_rules_def good_file_def config_ctor_def Let_def)
  show ?thesis
    using validate_and_replace_share_build [of demo_collab "[good_file]" demo_state] ok
    by (simp add: demo_state_def)
qed

lemma load_results_length:
  "length (load_results cb vb rfs ret) = length rfs"
  by (induction rfs arbitrary: ret) simp_all

lemma load_results_nth:
  "i < length rfs \<Longrightarrow>
   load_results cb vb rfs ret ! i =
     snd (load_rules cb (loaded_engine cb vb (take i rfs) ret) (rfs ! i) vb False)"
proof (induction rfs arbitrary: ret i)
  case Nil
  then show ?case by simp
next
  case (Cons rf rfs)
  then show ?case by (cases i) simp_all
qed

lemma check_plugins_find:
  "check_plugins cb ret infos =
     (case find (\<lambda>info. \<not> fst (is_plugin_compatible cb ret (name info)
                                   (as_string (plugin_version info)))) infos of
        None \<Rightarrow> None
      | Some info \<Rightarrow>
          Some (incompatible_message info
                  (snd (is_plugin_compatible cb ret (name info)
                          (as_string (plugin_version info))))))"
  by (induction infos) (auto simp: incompatible_message_def split: prod.splits)

lemma is_substring_middle:
  "is_substring sub (pre @ sub @ post)"
proof -
  have "take (length sub) (drop (length pre) (pre @ sub @ post)) = sub"
    by simp
  moreover have "length pre \<in> set [0..<Suc (length (pre @ sub @ post))]"
    by simp
  ultimately show ?thesis
    unfolding is_substring_def by blast
qed

lemma incompatible_message_names:
  "is_substring (name info) (incompatible_message info required)"
  "is_substring (as_string (plugin_version info)) (incompatible_message info required)"
  "is_substring required (incompatible_message info required)"
proof -
  show "is_substring (name info) (incompatible_message info required)"
    unfolding incompatible_message_def by (rule is_substring_middle)
  have "is_substring (as_string (plugin_version info))
          ((''Plugin '' @ name info @ '' version '') @ as_string (plugin_version info)
           @ ('' not compatible with required plugin version '' @ required))"
    by (rule is_substring_middle)
  then show "is_substring (as_string (plugin_version info)) (incompatible_message info required)"
    by (simp add: incompatible_message_def)
  have "is_substring required
          ((''Plugin '' @ name info @ '' version '' @ as_string (plugin_version info)
            @ '' not compatible with required plugin version '') @ required @ [])"
    by (rule is_substring_middle)
  then show "is_substring required (incompatible_message info required)"
    by (simp add: incompatible_message_def)
qed

lemma create_new_build:
  "m_inspector s = Some insp \<Longrightarrow>
   create_new cb s rfs =
     (if \<not> list_all successful (build_results cb s insp rfs)
      then (None, report cb (1 < length rfs) (verbose (m_config s)) (build_results cb s insp rfs), [])
      else (case check_plugins cb (build_loaded cb s insp rfs) (plugin_infos (m_config s)) of
              Some msg \<Rightarrow> (None, msg, [])
            | None \<Rightarrow>
                (Some (apply_policy (m_config s) (build_loaded cb s insp rfs)),
                 report cb (1 < length rfs) (verbose (m_config s)) (build_results cb s insp rfs),
                 policy_log (m_config s))))"
  unfolding build_results_def build_loaded_def
  by (simp add: create_new_eq Let_def split: option.splits)

text \<open>
  C7 (as amended). A build with no inspector attached returns no engine and sets the
  error string to \<open>No inspector provided yet\<close>, whatever the configuration, the rule
  files and the collaborators are: nothing is loaded, checked or logged. \<^verbatim>\<open>replace\<close> and
  \<^verbatim>\<open>validate\<close> then return false with that string and leave the object unchanged.
\<close>

theorem create_new_without_inspector:
  assumes "m_inspector s = None"
  shows "create_new cb s rulesfiles = (None, ''No inspector provided yet'', [])
       \<and> replace cb rulesfiles s = (False, ''No inspector provided yet'', [], s)
       \<and> validate cb rulesfiles s = (False, ''No inspector provided yet'', [], s)"
  using assms by (simp add: create_new_no_inspector replace_def validate_def)

theorem create_new_without_inspector_witness:
  "m_inspector (demo_state\<lparr>m_inspector := None\<rparr>) = None
   \<and> create_new demo_collab (demo_state\<lparr>m_inspector := None\<rparr>) [good_file]
       = (None, ''No inspector provided yet'', [])"
  using create_new_without_inspector [of "demo_state\<lparr>m_inspector := None\<rparr>" demo_collab "[good_file]"]
  by simp

text \<open>
  The specification words the message as \<open>No inspector/source provided yet\<close>; that is
  not the string the build gives.
\<close>

theorem no_inspector_message_counterexample:
  "m_inspector (demo_state\<lparr>m_inspector := None\<rparr>) = None
   \<and> fst (snd (create_new demo_collab (demo_state\<lparr>m_inspector := None\<rparr>) [good_file]))
       \<noteq> ''No inspector/source provided yet''"
  by (simp add: create_new_no_inspector)

text \<open>
  C5 (as amended). In a build with an inspector attached, every rule file is loaded,
  file \<open>i\<close> into the engine left by the files before it, whether or not those failed,
  and gives one result. If at least one result is a failure the build returns no engine
  and its error string is the concatenation, in file order, of the results rendered with
  file names iff more than one file was supplied and with warnings iff \<^verbatim>\<open>verbose\<close> is
  set. If no result is a failure, the build returns no engine exactly when the plugin
  check finds an incompatible plugin; the error string is then the compatibility message
  of the first incompatible plugin and nothing is logged; otherwise the build returns
  the loaded engine with the activation policy applied, and the error string is that
  same concatenation.
\<close>

theorem build_loads_every_file:
  assumes "m_inspector s = Some insp"
  shows "length (build_results cb s insp rfs) = length rfs
       \<and> (\<forall>i<length rfs.
             build_results cb s insp rfs ! i =
               snd (load_rules cb
                      (loaded_engine cb (verbose (m_config s)) (take i rfs)
                         (prepared (m_config s) insp (m_plugin_filter_checks s)))
                      (rfs ! i) (verbose (m_config s)) False))
       \<and> ((\<exists>res\<in>set (build_results cb s insp rfs). \<not> successful res) \<longrightarrow>
             create_new cb s rfs =
               (None,
                report cb (1 < length rfs) (verbose (m_config s)) (build_results cb s insp rfs),
                []))
       \<and> ((\<forall>res\<in>set (build_results cb s insp rfs). successful res) \<longrightarrow>
             (fst (create_new cb s rfs) = None) =
               (check_plugins cb (build_loaded cb s insp rfs) (plugin_infos (m_config s)) \<noteq> None)
             \<and> (fst (create_new cb s rfs) \<noteq> None \<longrightarrow>
                  fst (snd (create_new cb s rfs)) =
                    report cb (1 < length rfs) (verbose (m_config s))
                      (build_results cb s insp rfs)))
       \<and> ((\<forall>res\<in>set (build_results cb s insp rfs). successful res) \<longrightarrow>
             create_new cb s rfs =
               (case find (\<lambda>info. \<not> fst (is_plugin_compatible cb (build_loaded cb s insp rfs)
                                             (name info) (as_string (plugin_version info))))
                       (plugin_infos (m_config s)) of
                  None \<Rightarrow>
                    (Some (apply_policy (m_config s) (build_loaded cb s insp rfs)),
                     report cb (1 < length rfs) (verbose (m_config s))
                       (build_results cb s insp rfs),
                     policy_log (m_config s))
                | Some first \<Rightarrow>
                    (None,
                     incompatible_message first
                       (snd (is_plugin_compatible cb (build_loaded cb s insp rfs)
                               (name first) (as_string (plugin_version first)))),
                     [])))"
proof -
  have len: "length (build_results cb s insp rfs) = length rfs"
    by (simp add: build_results_def load_results_length)
  have nth: "\<forall>i<length rfs.
             build_results cb s insp rfs ! i =
               snd (load_rules cb
                      (loaded_engine cb (verbose (m_config s)) (take i rfs)
                         (prepared (m_config s) insp (m_plugin_filter_checks s)))
                      (rfs ! i) (verbose (m_config s)) False)"
    by (simp add: build_results_def load_results_nth)
  have failed: "(\<exists>res\<in>set (build_results cb s insp rfs). \<not> successful res) \<longrightarrow>
             create_new cb s rfs =
               (None,
                report cb (1 < length rfs) (verbose (m_config s)) (build_results cb s insp rfs),
                [])"
  proof
    assume "\<exists>res\<in>set (build_results cb s insp rfs). \<not> successful res"
    then have "\<not> list_all successful (build_results cb s insp rfs)"
      by (simp add: list_all_iff)
    then show "create_new cb s rfs =
               (None,
                report cb (1 < length rfs) (verbose (m_config s)) (build_results cb s insp rfs),
                [])"
      using assms by (simp add: create_new_build)
  qed
  have loaded: "(\<forall>res\<in>set (build_results cb s insp rfs). successful res) \<longrightarrow>
             (fst (create_new cb s rfs) = None) =
               (check_plugins cb (build_loaded cb s insp rfs) (plugin_infos (m_config s)) \<noteq> None)
             \<and> (fst (create_new cb s rfs) \<noteq> None \<longrightarrow>
                  fst (snd (create_new cb s rfs)) =
                    report cb (1 < length rfs) (verbose (m_config s))
                      (build_results cb s insp rfs))"
  proof
    assume "\<forall>res\<in>set (build_results cb s insp rfs). successful res"
    then have "list_all successful (build_results cb s insp rfs)"
      by (simp add: list_all_iff)
    then show "(fst (create_new cb s rfs) = None) =
               (check_plugins cb (build_loaded cb s insp rfs) (plugin_infos (m_config s)) \<noteq> None)
             \<and> (fst (create_new cb s rfs) \<noteq> None \<longrightarrow>
                  fst (snd (create_new cb s rfs)) =
                    report cb (1 < length rfs) (verbose (m_config s))
                      (build_results cb s insp rfs))"
      using assms by (simp add: create_new_build split: option.splits)
  qed
  have outcome: "(\<forall>res\<in>set (build_results cb s insp rfs). successful res) \<longrightarrow>
             create_new cb s rfs =
               (case find (\<lambda>info. \<not> fst (is_plugin_compatible cb (build_loaded cb s insp rfs)
                                             (name info) (as_string (plugin_version info))))
                       (plugin_infos (m_config s)) of
                  None \<Rightarrow>
                    (Some (apply_policy (m_config s) (build_loaded cb s insp rfs)),
                     report cb (1 < length rfs) (verbose (m_config s))
                       (build_results cb s insp rfs),
                     policy_log (m_config s))
                | Some first \<Rightarrow>
                    (None,
                     incompatible_message first
                       (snd (is_plugin_compatible cb (build_loaded cb s insp rfs)
                               (name first) (as_string (plugin_version first)))),
                     []))"
  proof
    assume "\<forall>res\<in>set (build_results cb s insp rfs). successful res"
    then have "list_all successful (build_results cb s insp rfs)"
      by (simp add: list_all_iff)
    then show "create_new cb s rfs =
               (case find (\<lambda>info. \<not> fst (is_plugin_compatible cb (build_loaded cb s insp rfs)
                                             (name info) (as_string (plugin_version info))))
                       (plugin_infos (m_config s)) of
                  None \<Rightarrow>
                    (Some (apply_policy (m_config s) (build_loaded cb s insp rfs)),
                     report cb (1 < length rfs) (verbose (m_config s))
                       (build_results cb s insp rfs),
                     policy_log (m_config s))
                | Some first \<Rightarrow>
                    (None,
                     incompatible_message first
                       (snd (is_plugin_compatible cb (build_loaded cb s insp rfs)
                               (name first) (as_string (plugin_version first)))),
                     []))"
      using assms by (simp add: create_new_build check_plugins_find split: option.splits)
  qed
  show ?thesis
    by (intro conjI) (rule len, rule nth, rule failed, rule loaded, rule outcome)
qed

theorem build_loads_every_file_witness:
  "length (build_results demo_collab demo_state (Sinsp 1) [good_file, bad_file, good_file]) = 3
   \<and> create_new demo_collab demo_state [good_file, bad_file, good_file]
       = (None, ''a.yaml: ok;b.yaml: syntax error;a.yaml: ok;'', [])
   \<and> create_new demo_collab (demo_state\<lparr>m_config := (config_ctor 0)\<lparr>verbose := True\<rparr>\<rparr>) [bad_file]
       = (None, ''syntax error;'', [])
   \<and> create_new demo_collab plugin_state [good_file]
       = (None, ''Plugin json version 1.0.0 not compatible with required plugin version 2.0.0'', [])"
proof -
  have insp: "m_inspector demo_state = Some (Sinsp 1)"
    "m_inspector (demo_state\<lparr>m_config := (config_ctor 0)\<lparr>verbose := True\<rparr>\<rparr>) = Some (Sinsp 1)"
    "m_inspector plugin_state = Some (Sinsp 1)"
    by (simp_all add: demo_state_def plugin_state_def)
  have ok: "\<forall>res\<in>set (build_results demo_collab plugin_state (Sinsp 1) [good_file]). successful res"
    by (simp add: build_results_def demo_collab_def demo_load_rules_def good_file_def)
  have rejected: "create_new demo_collab plugin_state [good_file]
       = (None, ''Plugin json version 1.0.0 not compatible with required plugin version 2.0.0'', [])"
    using build_loads_every_file [OF insp(3), of demo_collab "[good_file]",
        THEN conjunct2, THEN conjunct2, THEN conjunct2, THEN conjunct2, THEN mp, OF ok]
    by (simp add: plugin_state_def config_ctor_def json_plugin_def demo_collab_def
        demo_is_plugin_compatible_def incompatible_message_def)
  show ?thesis
    using build_loads_every_file [OF insp(1), of demo_collab "[good_file, bad_file, good_file]"]
      build_loads_every_file [OF insp(2), of demo_collab "[bad_file]"] rejected
    by (simp add: build_results_def report_def demo_collab_def demo_load_rules_def
        demo_as_string_def good_file_def bad_file_def demo_state_def config_ctor_def)
qed

text \<open>
  The specification has the build fail exactly if a file failed. Here the one file loads
  successfully and the build still returns no engine: the plugin check rejects it.
\<close>

theorem build_fails_iff_file_failed_counterexample:
  "\<not> ((fst (create_new demo_collab plugin_state [good_file]) = None)
       = (\<exists>res\<in>set (build_results demo_collab plugin_state (Sinsp 1) [good_file]).
            \<not> successful res))"
proof -
  have insp: "m_inspector plugin_state = Some (Sinsp 1)"
    by (simp add: plugin_state_def demo_state_def)
  have "fst (create_new demo_collab plugin_state [good_file]) = None"
    by (subst create_new_build [OF insp])
       (simp add: build_results_def build_loaded_def
          plugin_state_def demo_state_def config_ctor_def json_plugin_def
          demo_collab_def demo_load_rules_def demo_is_plugin_compatible_def good_file_def)
  moreover have "\<not> (\<exists>res\<in>set (build_results demo_collab plugin_state (Sinsp 1) [good_file]).
            \<not> successful res)"
    by (simp add: build_results_def demo_collab_def demo_load_rules_def good_file_def)
  ultimately show ?thesis
    by simp
qed

text \<open>
  C6 (as amended). In a build with an inspector attached in which every rule file loads
  successfully and some configured plugin is not compatible with the loaded rules, the
  build returns no engine and \<^verbatim>\<open>replace\<close> returns false, leaving the object, its
  pending queue and its active engine unchanged. The full error string returned is the
  compatibility message of line 232 alone, for the first incompatible plugin of
  \<^verbatim>\<open>plugin_infos\<close>: it contains that plugin's name, the version supplied and the
  version required, and it replaces the aggregated load diagnostics, which are not
  returned.
\<close>

theorem incompatible_plugin_fails_build:
  assumes "m_inspector s = Some insp"
    and "\<forall>res\<in>set (build_results cb s insp rfs). successful res"
    and "info \<in> set (plugin_infos (m_config s))"
    and "\<not> fst (is_plugin_compatible cb (build_loaded cb s insp rfs) (name info)
                  (as_string (plugin_version info)))"
  shows "\<exists>first required.
           find (\<lambda>info. \<not> fst (is_plugin_compatible cb (build_loaded cb s insp rfs) (name info)
                                  (as_string (plugin_version info))))
             (plugin_infos (m_config s)) = Some first
         \<and> is_plugin_compatible cb (build_loaded cb s insp rfs) (name first)
             (as_string (plugin_version first)) = (False, required)
         \<and> create_new cb s rfs = (None, incompatible_message first required, [])
         \<and> replace cb rfs s = (False, incompatible_message first required, [], s)
         \<and> incompatible_message first required =
             ''Plugin '' @ name first @ '' version '' @ as_string (plugin_version first)
             @ '' not compatible with required plugin version '' @ required
         \<and> is_substring (name first) (incompatible_message first required)
         \<and> is_substring (as_string (plugin_version first)) (incompatible_message first required)
         \<and> is_substring required (incompatible_message first required)"
proof -
  let ?bad = "\<lambda>info. \<not> fst (is_plugin_compatible cb (build_loaded cb s insp rfs) (name info)
                                  (as_string (plugin_version info)))"
  from assms(3,4) obtain first where first: "find ?bad (plugin_infos (m_config s)) = Some first"
    by (cases "find ?bad (plugin_infos (m_config s))") (auto simp: find_None_iff)
  then have bad: "?bad first"
    by (auto simp: find_Some_iff)
  define required where "required = snd (is_plugin_compatible cb (build_loaded cb s insp rfs)
      (name first) (as_string (plugin_version first)))"
  have ipc: "is_plugin_compatible cb (build_loaded cb s insp rfs) (name first)
             (as_string (plugin_version first)) = (False, required)"
    using bad by (simp add: required_def prod_eq_iff)
  have all_ok: "list_all successful (build_results cb s insp rfs)"
    using assms(2) by (simp add: list_all_iff)
  have cn: "create_new cb s rfs = (None, incompatible_message first required, [])"
    using assms(1) all_ok first
    by (simp add: create_new_build check_plugins_find required_def)
  have rp: "replace cb rfs s = (False, incompatible_message first required, [], s)"
    using cn by (simp add: replace_def)
  show ?thesis
    using first ipc cn rp incompatible_message_names [where info = first and required = required]
    by (intro exI [where x = first] exI [where x = required])
       (simp add: incompatible_message_def)
qed

theorem incompatible_plugin_witness:
  "create_new demo_collab plugin_state [good_file] =
     (None, ''Plugin json version 1.0.0 not compatible with required plugin version 2.0.0'', [])
   \<and> replace demo_collab [good_file] plugin_state =
     (False, ''Plugin json version 1.0.0 not compatible with required plugin version 2.0.0'', [],
      plugin_state)"
proof -
  have insp: "m_inspector plugin_state = Some (Sinsp 1)"
    by (simp add: plugin_state_def demo_state_def)
  have ok: "\<forall>res\<in>set (build_results demo_collab plugin_state (Sinsp 1) [good_file]). successful res"
    by (simp add: build_results_def demo_collab_def demo_load_rules_def good_file_def)
  have mem: "json_plugin \<in> set (plugin_infos (m_config plugin_state))"
    by (simp add: plugin_state_def config_ctor_def)
  have bad: "\<not> fst (is_plugin_compatible demo_collab
                     (build_loaded demo_collab plugin_state (Sinsp 1) [good_file])
                     (name json_plugin) (as_string (plugin_version json_plugin)))"
    by (simp add: demo_collab_def demo_is_plugin_compatible_def json_plugin_def)
  show ?thesis
    using incompatible_plugin_fails_build [OF insp ok mem bad]
    by (auto simp: plugin_state_def config_ctor_def demo_collab_def
        demo_is_plugin_compatible_def json_plugin_def incompatible_message_def)
qed

text \<open>
  The specification has the returned string be the aggregated report of diagnostics and
  compatibility. Here two files load with warnings, rendered since \<^verbatim>\<open>verbose\<close> is set,
  and the plugin is rejected: the string returned is the plugin message, and the
  diagnostics of the two files are not in it.
\<close>

theorem error_string_drops_diagnostics_counterexample:
  "report demo_collab True True
       (build_results demo_collab verbose_plugin_state (Sinsp 1) [good_file, other_file])
     = ''a.yaml: okunused macro;c.yaml: okunused macro;''
   \<and> fst (snd (replace demo_collab [good_file, other_file] verbose_plugin_state))
     = ''Plugin json version 1.0.0 not compatible with required plugin version 2.0.0''
   \<and> \<not> is_substring ''unused macro''
         (fst (snd (replace demo_collab [good_file, other_file] verbose_plugin_state)))"
proof -
  have insp: "m_inspector verbose_plugin_state = Some (Sinsp 1)"
    by (simp add: verbose_plugin_state_def demo_state_def)
  have rep: "report demo_collab True True
       (build_results demo_collab verbose_plugin_state (Sinsp 1) [good_file, other_file])
     = ''a.yaml: okunused macro;c.yaml: okunused macro;''"
    by (simp add: report_def build_results_def demo_collab_def demo_load_rules_def
        demo_as_string_def good_file_def other_file_def)
  have cn: "create_new demo_collab verbose_plugin_state [good_file, other_file]
     = (None, ''Plugin json version 1.0.0 not compatible with required plugin version 2.0.0'', [])"
    by (subst create_new_build [OF insp])
       (simp add: build_results_def build_loaded_def verbose_plugin_state_def demo_state_def
          config_ctor_def json_plugin_def demo_collab_def demo_load_rules_def
          demo_is_plugin_compatible_def good_file_def other_file_def)
  have err: "fst (snd (replace demo_collab [good_file, other_file] verbose_plugin_state))
     = ''Plugin json version 1.0.0 not compatible with required plugin version 2.0.0''"
    by (simp add: replace_def cn)
  have "\<not> is_substring ''unused macro''
      ''Plugin json version 1.0.0 not compatible with required plugin version 2.0.0''"
    by (simp add: is_substring_def upt_rec)
  with rep err show ?thesis
    by simp
qed

section \<open>The activation policy\<close>

lemma enable_rule_fields:
  "eng_extra (enable_rule sub b e) = eng_extra e"
  "eng_min_priority (enable_rule sub b e) = eng_min_priority e"
  "eng_sources (enable_rule sub b e) = eng_sources e"
  "eng_extra (enable_rule_by_tag tags b e) = eng_extra e"
  "eng_min_priority (enable_rule_by_tag tags b e) = eng_min_priority e"
  "eng_sources (enable_rule_by_tag tags b e) = eng_sources e"
  by (simp_all add: enable_rule_def enable_rule_by_tag_def)

lemma fold_enable_rule_fields:
  "eng_extra (fold (\<lambda>substring r. enable_rule substring False r) subs e) = eng_extra e
   \<and> eng_min_priority (fold (\<lambda>substring r. enable_rule substring False r) subs e)
       = eng_min_priority e
   \<and> eng_sources (fold (\<lambda>substring r. enable_rule substring False r) subs e) = eng_sources e"
  by (induction subs arbitrary: e) (simp_all add: enable_rule_fields)

lemma apply_policy_fields:
  "eng_extra (apply_policy cfg e) = eng_extra e"
  "eng_min_priority (apply_policy cfg e) = eng_min_priority e"
  "eng_sources (apply_policy cfg e) = eng_sources e"
  by (simp_all add: apply_policy_def Let_def enable_rule_fields fold_enable_rule_fields)

lemma forget_enable_rule:
  "map (\<lambda>r. r\<lparr>rule_enabled := False\<rparr>) (eng_rules (enable_rule sub b e))
     = map (\<lambda>r. r\<lparr>rule_enabled := False\<rparr>) (eng_rules e)"
  by (simp add: enable_rule_def)

lemma forget_enable_rule_by_tag:
  "map (\<lambda>r. r\<lparr>rule_enabled := False\<rparr>) (eng_rules (enable_rule_by_tag tags b e))
     = map (\<lambda>r. r\<lparr>rule_enabled := False\<rparr>) (eng_rules e)"
  by (simp add: enable_rule_by_tag_def)

lemma forget_fold_enable_rule:
  "map (\<lambda>r. r\<lparr>rule_enabled := False\<rparr>)
       (eng_rules (fold (\<lambda>substring r. enable_rule substring False r) subs e))
     = map (\<lambda>r. r\<lparr>rule_enabled := False\<rparr>) (eng_rules e)"
  by (induction subs arbitrary: e) (simp_all add: forget_enable_rule)

lemma is_substring_empty:
  "is_substring [] s"
  unfolding is_substring_def by auto

lemma allow_list_rules:
  "eng_rules (enable_rule_by_tag tags True (enable_rule [] False e))
     = map (\<lambda>r. r\<lparr>rule_enabled := (rule_tags r \<inter> tags \<noteq> {})\<rparr>)
         (map (\<lambda>r. r\<lparr>rule_enabled := False\<rparr>) (eng_rules e))"
  by (simp add: enable_rule_def enable_rule_by_tag_def is_substring_empty)

lemma apply_policy_allow_list:
  assumes "enabled_rule_tags cfg \<noteq> {}"
  shows "eng_rules (apply_policy cfg e)
     = map (\<lambda>r. r\<lparr>rule_enabled := (rule_tags r \<inter> enabled_rule_tags cfg \<noteq> {})\<rparr>) (eng_rules e)"
proof -
  let ?forget = "\<lambda>r::rule. r\<lparr>rule_enabled := False\<rparr>"
  let ?e1 = "fold (\<lambda>substring r. enable_rule substring False r) (disabled_rule_substrings cfg) e"
  let ?e2 = "if disabled_rule_tags cfg \<noteq> {}
             then enable_rule_by_tag (disabled_rule_tags cfg) False ?e1 else ?e1"
  have "map ?forget (eng_rules ?e2) = map ?forget (eng_rules ?e1)"
    by (simp add: forget_enable_rule_by_tag)
  also have "\<dots> = map ?forget (eng_rules e)"
    by (rule forget_fold_enable_rule)
  finally have forget: "map ?forget (eng_rules ?e2) = map ?forget (eng_rules e)" .
  have "eng_rules (apply_policy cfg e)
      = eng_rules (enable_rule_by_tag (enabled_rule_tags cfg) True (enable_rule [] False ?e2))"
    using assms by (simp add: apply_policy_def Let_def)
  also have "\<dots> = map (\<lambda>r. r\<lparr>rule_enabled := (rule_tags r \<inter> enabled_rule_tags cfg \<noteq> {})\<rparr>)
                     (map ?forget (eng_rules ?e2))"
    by (rule allow_list_rules)
  also have "\<dots> = map (\<lambda>r. r\<lparr>rule_enabled := (rule_tags r \<inter> enabled_rule_tags cfg \<noteq> {})\<rparr>)
                     (map ?forget (eng_rules e))"
    by (simp only: forget)
  also have "\<dots> = map (\<lambda>r. r\<lparr>rule_enabled := (rule_tags r \<inter> enabled_rule_tags cfg \<noteq> {})\<rparr>)
                     (eng_rules e)"
    by simp
  finally show ?thesis .
qed

text \<open>
  C4. The build applies the directives in one order: each substring of
  \<^verbatim>\<open>disabled_rule_substrings\<close> in list order, then \<^verbatim>\<open>disabled_rule_tags\<close> if non-empty,
  then, if \<^verbatim>\<open>enabled_rule_tags\<close> is non-empty, disabling every rule and enabling the
  rules with an enabled tag; the engine a successful build returns is the loaded engine
  with this policy applied. Whenever \<^verbatim>\<open>enabled_rule_tags\<close> is non-empty, a rule is active
  in the result exactly if it carries an enabled tag, and the result is the same for
  every choice of the substring and disabled-tag directives.
\<close>

theorem enabled_tags_are_exclusive_allow_list:
  "apply_policy cfg e =
     (if enabled_rule_tags cfg \<noteq> {}
      then enable_rule_by_tag (enabled_rule_tags cfg) True \<circ> enable_rule [] False else id)
       ((if disabled_rule_tags cfg \<noteq> {}
         then enable_rule_by_tag (disabled_rule_tags cfg) False else id)
          (fold (\<lambda>substring. enable_rule substring False) (disabled_rule_substrings cfg) e))
   \<and> (m_inspector s = Some insp \<and> fst (create_new cb s rfs) = Some built \<longrightarrow>
        built = apply_policy (m_config s) (build_loaded cb s insp rfs))
   \<and> (enabled_rule_tags cfg \<noteq> {} \<longrightarrow>
        eng_rules (apply_policy cfg e) =
          map (\<lambda>r. r\<lparr>rule_enabled := (rule_tags r \<inter> enabled_rule_tags cfg \<noteq> {})\<rparr>) (eng_rules e)
        \<and> (\<forall>subs tags.
              apply_policy (cfg\<lparr>disabled_rule_substrings := subs, disabled_rule_tags := tags\<rparr>) e
                = apply_policy cfg e))"
proof -
  have order: "apply_policy cfg e =
     (if enabled_rule_tags cfg \<noteq> {}
      then enable_rule_by_tag (enabled_rule_tags cfg) True \<circ> enable_rule [] False else id)
       ((if disabled_rule_tags cfg \<noteq> {}
         then enable_rule_by_tag (disabled_rule_tags cfg) False else id)
          (fold (\<lambda>substring. enable_rule substring False) (disabled_rule_substrings cfg) e))"
    by (simp add: apply_policy_def Let_def)
  have built: "built = apply_policy (m_config s) (build_loaded cb s insp rfs)"
    if "m_inspector s = Some insp" "fst (create_new cb s rfs) = Some built"
    using that by (simp add: create_new_build split: if_splits option.splits)
  have indep: "apply_policy (cfg\<lparr>disabled_rule_substrings := subs, disabled_rule_tags := tags\<rparr>) e
                = apply_policy cfg e"
    if ne: "enabled_rule_tags cfg \<noteq> {}" for subs tags
  proof -
    let ?cfg' = "cfg\<lparr>disabled_rule_substrings := subs, disabled_rule_tags := tags\<rparr>"
    have ne': "enabled_rule_tags ?cfg' \<noteq> {}"
      using ne by simp
    have "eng_rules (apply_policy ?cfg' e) = eng_rules (apply_policy cfg e)"
      by (simp add: apply_policy_allow_list [OF ne'] apply_policy_allow_list [OF ne])
    then show ?thesis
      by (intro falco_engine.equality) (simp_all add: apply_policy_fields)
  qed
  have built': "m_inspector s = Some insp \<and> fst (create_new cb s rfs) = Some built \<longrightarrow>
        built = apply_policy (m_config s) (build_loaded cb s insp rfs)"
    using built by (intro impI) (elim conjE)
  have allow: "enabled_rule_tags cfg \<noteq> {} \<longrightarrow>
        eng_rules (apply_policy cfg e) =
          map (\<lambda>r. r\<lparr>rule_enabled := (rule_tags r \<inter> enabled_rule_tags cfg \<noteq> {})\<rparr>) (eng_rules e)
        \<and> (\<forall>subs tags.
              apply_policy (cfg\<lparr>disabled_rule_substrings := subs, disabled_rule_tags := tags\<rparr>) e
                = apply_policy cfg e)"
    using indep apply_policy_allow_list [of cfg e] by (intro impI conjI allI)
  show ?thesis
    by (intro conjI) (rule order, rule built', rule allow)
qed

theorem enabled_tags_witness:
  "enabled_rule_tags tag_config \<noteq> {}
   \<and> map rule_enabled (eng_rules (apply_policy tag_config tagged_engine))
       = [True, True, False, False]
   \<and> map rule_name (eng_rules (apply_policy tag_config tagged_engine))
       = [''write below etc'', ''shell in container'', ''outbound connection'', ''untagged'']"
proof -
  have ne: "enabled_rule_tags tag_config \<noteq> {}"
    by (simp add: tag_config_def)
  have "eng_rules (apply_policy tag_config tagged_engine) =
          map (\<lambda>r. r\<lparr>rule_enabled := (rule_tags r \<inter> enabled_rule_tags tag_config \<noteq> {})\<rparr>)
            (eng_rules tagged_engine)"
    by (rule enabled_tags_are_exclusive_allow_list [of tag_config tagged_engine,
          THEN conjunct2, THEN conjunct2, THEN mp, OF ne, THEN conjunct1])
  then show ?thesis
    using ne by (simp add: tag_config_def tagged_engine_def config_ctor_def falco_engine_new_def)
qed

section \<open>The accessor over call sequences\<close>

lemma engine_observed:
  "engine s =
     ((case observed s of
         None \<Rightarrow> Inl (Falco_exception ''No engine, must call replace() first'')
       | Some e \<Rightarrow> Inr e),
      s\<lparr>m_pending_falco_engine := [], m_engine := observed s\<rparr>)"
  by (simp add: engine_def engine_drain_eq observed_def Let_def split: option.splits)

lemma observed_engine:
  "observed (snd (engine s)) = observed s"
  by (simp add: engine_observed) (simp add: observed_def)

lemma observed_enqueue:
  "observed (enqueue e s) = Some e"
  by (simp add: enqueue_def push_def observed_def)

lemma observed_rebind:
  "observed (s\<lparr>m_config := cfg, m_inspector := inspector\<rparr>) = observed s"
  by (simp add: observed_def)

lemma replace_result:
  "fst (replace cb rfs s) = (fst (create_new cb s rfs) \<noteq> None)"
  "snd (snd (snd (replace cb rfs s))) =
     (case fst (create_new cb s rfs) of None \<Rightarrow> s | Some e \<Rightarrow> enqueue e s)"
  by (cases "create_new cb s rfs"; simp add: replace_def split: option.splits)+

lemma validate_result:
  "fst (validate cb rfs s) = (fst (create_new cb s rfs) \<noteq> None)"
  "snd (snd (snd (validate cb rfs s))) = s"
  by (cases "create_new cb s rfs"; simp add: validate_def)+

lemma call_step_result:
  "call_step cb (Init cfg inspector) s =
     (fst (init cb cfg inspector s), snd (snd (snd (init cb cfg inspector s))))"
  "call_step cb (Replace rfs) s = (fst (replace cb rfs s), snd (snd (snd (replace cb rfs s))))"
  "call_step cb (Validate rfs) s = (fst (validate cb rfs s), snd (snd (snd (validate cb rfs s))))"
  "call_step cb Engine s = (fst (engine s) \<noteq> Inl (Falco_exception ''No engine, must call replace() first''),
                            snd (engine s))"
  by (simp_all add: engine_observed split: prod.splits option.splits)

declare call_step.simps [simp del]

lemma call_step_keeps_observed:
  assumes "is_producer c \<longrightarrow> \<not> fst (call_step cb c s)"
  shows "observed (snd (call_step cb c s)) = observed s"
proof (cases c)
  case (Init cfg inspector)
  with assms have "fst (create_new cb (s\<lparr>m_config := cfg, m_inspector := inspector\<rparr>) []) = None"
    by (simp add: call_step_result init_def replace_result)
  then show ?thesis
    using Init by (simp add: call_step_result init_def replace_result observed_rebind)
next
  case (Replace rfs)
  with assms have "fst (create_new cb s rfs) = None"
    by (simp add: call_step_result replace_result)
  then show ?thesis
    using Replace by (simp add: call_step_result replace_result)
next
  case (Validate rfs)
  then show ?thesis
    by (simp add: call_step_result validate_result)
next
  case Engine
  then show ?thesis
    by (simp add: call_step_result observed_engine)
qed

lemma call_step_observed_Some:
  assumes "observed s \<noteq> None"
  shows "observed (snd (call_step cb c s)) \<noteq> None"
proof (cases c)
  case (Init cfg inspector)
  then show ?thesis
    using assms
    by (simp add: call_step_result init_def replace_result observed_rebind observed_enqueue
        split: option.splits)
next
  case (Replace rfs)
  then show ?thesis
    using assms by (simp add: call_step_result replace_result observed_enqueue split: option.splits)
next
  case (Validate rfs)
  then show ?thesis
    using assms by (simp add: call_step_result validate_result)
next
  case Engine
  then show ?thesis
    using assms by (simp add: call_step_result observed_engine)
qed

lemma run_calls_Cons_state:
  "snd (run_calls cb (c # cs) s) = snd (run_calls cb cs (snd (call_step cb c s)))"
  by (simp split: prod.splits)

lemma run_calls_keeps_observed:
  "none_promoted cb cs s \<Longrightarrow> observed (snd (run_calls cb cs s)) = observed s"
proof (induction cs arbitrary: s)
  case Nil
  then show ?case by simp
next
  case (Cons c cs)
  from Cons.prems have step: "is_producer c \<longrightarrow> \<not> fst (call_step cb c s)"
    and rest: "none_promoted cb cs (snd (call_step cb c s))"
    by simp_all
  have "observed (snd (run_calls cb (c # cs) s))
      = observed (snd (run_calls cb cs (snd (call_step cb c s))))"
    by (simp only: run_calls_Cons_state)
  also have "\<dots> = observed (snd (call_step cb c s))"
    using rest by (rule Cons.IH)
  also have "\<dots> = observed s"
    using step by (rule call_step_keeps_observed)
  finally show ?case .
qed

lemma run_calls_observed_Some:
  "observed s \<noteq> None \<Longrightarrow> observed (snd (run_calls cb cs s)) \<noteq> None"
proof (induction cs arbitrary: s)
  case Nil
  then show ?case by simp
next
  case (Cons c cs)
  have "observed (snd (call_step cb c s)) \<noteq> None"
    using Cons.prems by (rule call_step_observed_Some)
  then have "observed (snd (run_calls cb cs (snd (call_step cb c s)))) \<noteq> None"
    by (rule Cons.IH)
  then show ?case
    unfolding run_calls_Cons_state .
qed

lemma eng_rules_add_sources:
  "eng_rules (add_sources cfg insp checks e) = eng_rules e"
proof -
  have "eng_rules (fold (\<lambda>source r.
             let (filter_factory, formatter_factory) =
                   source_factories insp checks (json_output cfg) source
             in add_source source filter_factory formatter_factory r) xs e) = eng_rules e" for xs
    by (induction xs arbitrary: e) (simp_all add: add_source_def split: prod.splits)
  then show ?thesis
    by (simp add: add_sources_def)
qed

lemma eng_rules_prepared:
  "eng_rules (prepared cfg insp checks) = []"
  by (simp add: prepared_def eng_rules_add_sources set_min_priority_def set_extra_def
      falco_engine_new_def)

lemma eng_rules_apply_policy_empty:
  assumes "eng_rules e = []"
  shows "eng_rules (apply_policy cfg e) = []"
proof -
  have "eng_rules (fold (\<lambda>substring r. enable_rule substring False r) subs e') = []"
    if "eng_rules e' = []" for subs e'
    using that by (induction subs arbitrary: e') (simp_all add: enable_rule_def)
  with assms show ?thesis
    by (simp add: apply_policy_def Let_def enable_rule_def enable_rule_by_tag_def)
qed

lemma init_success:
  assumes "fst (init cb cfg inspector s)"
  shows "\<exists>insp. inspector = Some insp
         \<and> snd (snd (snd (init cb cfg inspector s))) =
             enqueue (apply_policy cfg (prepared cfg insp (m_plugin_filter_checks s)))
               (s\<lparr>m_config := cfg, m_inspector := inspector\<rparr>)"
proof (cases inspector)
  case None
  with assms show ?thesis
    by (simp add: init_def replace_result create_new_no_inspector)
next
  case (Some insp)
  let ?s = "s\<lparr>m_config := cfg, m_inspector := inspector\<rparr>"
  have insp: "m_inspector ?s = Some insp"
    using Some by simp
  have cn: "fst (create_new cb ?s []) =
      (case check_plugins cb (prepared cfg insp (m_plugin_filter_checks s)) (plugin_infos cfg) of
         Some msg \<Rightarrow> None
       | None \<Rightarrow> Some (apply_policy cfg (prepared cfg insp (m_plugin_filter_checks s))))"
    by (subst create_new_build [OF insp])
       (simp add: build_results_def build_loaded_def split: option.splits)
  from assms have "fst (create_new cb ?s []) \<noteq> None"
    by (simp add: init_def replace_result)
  with cn have "fst (create_new cb ?s []) =
      Some (apply_policy cfg (prepared cfg insp (m_plugin_filter_checks s)))"
    by (simp split: option.splits)
  then show ?thesis
    using Some by (simp add: init_def replace_result)
qed

text \<open>
  C8. The accessor throws on a freshly constructed object, and on any object with no
  active and no pending engine after any sequence of calls in which no \<^verbatim>\<open>init\<close> and
  no \<^verbatim>\<open>replace\<close> returned true. After an \<^verbatim>\<open>init\<close> that returned true the accessor
  returns an engine with no rules; it returns that same engine after any further calls
  among which no \<^verbatim>\<open>init\<close> or \<^verbatim>\<open>replace\<close> returned true, and after any sequence of calls
  whatever it returns an engine and does not throw.
\<close>

theorem accessor_throws_until_initialised:
  "fst (engine (swappable_falco_engine_ctor p i :: falco_engine swappable_falco_engine))
     = Inl (Falco_exception ''No engine, must call replace() first'')
   \<and> (m_engine s0 = None \<and> m_pending_falco_engine s0 = [] \<and> none_promoted cb cs s0 \<longrightarrow>
        fst (engine (snd (run_calls cb cs s0)))
          = Inl (Falco_exception ''No engine, must call replace() first''))
   \<and> (fst (init cb cfg inspector s) \<longrightarrow>
        (\<exists>e. fst (engine (snd (snd (snd (init cb cfg inspector s))))) = Inr e
            \<and> eng_rules e = []
            \<and> (\<forall>cs'. none_promoted cb cs' (snd (snd (snd (init cb cfg inspector s)))) \<longrightarrow>
                  fst (engine (snd (run_calls cb cs' (snd (snd (snd (init cb cfg inspector s)))))))
                    = Inr e)
            \<and> (\<forall>cs'. \<exists>e'.
                  fst (engine (snd (run_calls cb cs' (snd (snd (snd (init cb cfg inspector s)))))))
                    = Inr e')))"
proof (intro conjI impI)
  show "fst (engine (swappable_falco_engine_ctor p i :: falco_engine swappable_falco_engine))
     = Inl (Falco_exception ''No engine, must call replace() first'')"
    by (simp add: engine_observed observed_def swappable_falco_engine_ctor_def)
next
  assume a: "m_engine s0 = None \<and> m_pending_falco_engine s0 = [] \<and> none_promoted cb cs s0"
  then have "observed (snd (run_calls cb cs s0)) = observed s0"
    by (simp add: run_calls_keeps_observed)
  also have "\<dots> = None"
    using a by (simp add: observed_def)
  finally show "fst (engine (snd (run_calls cb cs s0)))
          = Inl (Falco_exception ''No engine, must call replace() first'')"
    by (simp add: engine_observed)
next
  assume ok: "fst (init cb cfg inspector s)"
  let ?s1 = "snd (snd (snd (init cb cfg inspector s)))"
  from init_success [OF ok] obtain insp where
    s1: "?s1 = enqueue (apply_policy cfg (prepared cfg insp (m_plugin_filter_checks s)))
               (s\<lparr>m_config := cfg, m_inspector := inspector\<rparr>)"
    by blast
  define e where "e = apply_policy cfg (prepared cfg insp (m_plugin_filter_checks s))"
  have obs: "observed ?s1 = Some e"
    by (simp only: s1 observed_enqueue e_def)
  have here: "fst (engine ?s1) = Inr e"
    by (simp add: engine_observed obs)
  have rules: "eng_rules e = []"
    by (simp add: e_def eng_rules_apply_policy_empty eng_rules_prepared)
  have same: "fst (engine (snd (run_calls cb cs' ?s1))) = Inr e"
    if "none_promoted cb cs' ?s1" for cs'
  proof -
    have "observed (snd (run_calls cb cs' ?s1)) = observed ?s1"
      using that by (rule run_calls_keeps_observed)
    then show ?thesis
      by (simp add: engine_observed obs)
  qed
  have some: "\<exists>e'. fst (engine (snd (run_calls cb cs' ?s1))) = Inr e'" for cs'
  proof -
    have "observed ?s1 \<noteq> None"
      by (simp add: obs)
    then have "observed (snd (run_calls cb cs' ?s1)) \<noteq> None"
      by (rule run_calls_observed_Some)
    then show ?thesis
      by (auto simp: engine_observed)
  qed
  from here rules same some
  show "\<exists>e. fst (engine ?s1) = Inr e
            \<and> eng_rules e = []
            \<and> (\<forall>cs'. none_promoted cb cs' ?s1 \<longrightarrow>
                  fst (engine (snd (run_calls cb cs' ?s1))) = Inr e)
            \<and> (\<forall>cs'. \<exists>e'. fst (engine (snd (run_calls cb cs' ?s1))) = Inr e')"
    by blast
qed

theorem accessor_throws_until_initialised_witness:
  "fst (engine (snd (run_calls demo_collab [Validate [good_file], Engine, Replace [bad_file]]
                       demo_state)))
     = Inl (Falco_exception ''No engine, must call replace() first'')
   \<and> fst (init demo_collab (config_ctor 0) (Some (Sinsp 1)) demo_state)
   \<and> (\<exists>e. fst (engine (snd (snd (snd (init demo_collab (config_ctor 0) (Some (Sinsp 1))
                                         demo_state))))) = Inr e
          \<and> eng_rules e = [])"
proof -
  have insp: "m_inspector demo_state = Some (Sinsp 1)"
    by (simp add: demo_state_def)
  have bad: "fst (create_new demo_collab demo_state [bad_file]) = None"
    by (subst create_new_build [OF insp])
       (simp add: build_results_def demo_collab_def demo_load_rules_def bad_file_def)
  have quiet: "m_engine demo_state = None \<and> m_pending_falco_engine demo_state = []
      \<and> none_promoted demo_collab [Validate [good_file], Engine, Replace [bad_file]] demo_state"
    using bad
    by (simp add: call_step_result validate_result replace_result engine_observed observed_def)
       (simp add: demo_state_def)
  have insp': "m_inspector (demo_state\<lparr>m_config := config_ctor 0, m_inspector := Some (Sinsp 1)\<rparr>)
      = Some (Sinsp 1)"
    by simp
  have ok: "fst (init demo_collab (config_ctor 0) (Some (Sinsp 1)) demo_state)"
    unfolding init_def Let_def replace_result
    by (subst create_new_build [OF insp'])
       (simp add: build_results_def build_loaded_def config_ctor_def)
  show ?thesis
    using accessor_throws_until_initialised
      [of 0 None demo_state demo_collab "[Validate [good_file], Engine, Replace [bad_file]]"
          "config_ctor 0" "Some (Sinsp 1)" demo_state]
      quiet ok
    by blast
qed

section \<open>The configuration\<close>

text \<open>
  C9 (as amended). Every configuration the constructor builds has exactly the two
  built-in sources in \<^verbatim>\<open>event_sources\<close>, so the set is non-empty and contains
  \<open>syscall\<close> and \<open>k8s_audit\<close> without either having been added, and a newly
  constructed object holds such a configuration; adding a source keeps both. The set is
  a public member that the file never restores. For every configuration,
  \<^verbatim>\<open>contains_event_source\<close> returns true exactly for the members of its set.
\<close>

theorem constructed_config_has_builtin_sources:
  "event_sources (config_ctor p) = {''syscall'', ''k8s_audit''}
   \<and> event_sources (config_ctor p) \<noteq> {}
   \<and> contains_event_source (config_ctor p) ''syscall''
   \<and> contains_event_source (config_ctor p) ''k8s_audit''
   \<and> contains_event_source (config_ctor p) source = (source = ''syscall'' \<or> source = ''k8s_audit'')
   \<and> event_sources (m_config (swappable_falco_engine_ctor p i)) = {''syscall'', ''k8s_audit''}
   \<and> contains_event_source (c\<lparr>event_sources := insert added (event_sources c)\<rparr>) source
       = (source = added \<or> contains_event_source c source)
   \<and> contains_event_source c source = (source \<in> event_sources c)"
  by (simp add: config_ctor_def contains_event_source_def swappable_falco_engine_ctor_def
      syscall_source_def k8s_audit_source_def)

text \<open>
  A configuration whose set of sources was emptied after construction is a
  configuration, and has neither built-in source.
\<close>

theorem config_without_builtin_sources_counterexample:
  "event_sources cleared_config = {}
   \<and> \<not> contains_event_source cleared_config ''syscall''
   \<and> \<not> contains_event_source cleared_config ''k8s_audit''"
  by (simp add: cleared_config_def contains_event_source_def)

section \<open>Opening rule files\<close>

lemma open_files_loop_all_loaded:
  "\<forall>f\<in>set filenames. fst (ld f) \<Longrightarrow>
   open_files_loop ld filenames acc = (True, acc @ map (\<lambda>f. fst (snd (ld f))) filenames)"
  by (induction filenames arbitrary: acc) (auto split: prod.splits)

lemma open_files_loop_first_failure:
  "\<forall>g\<in>set pre. fst (ld g) \<Longrightarrow> \<not> fst (ld f) \<Longrightarrow>
   open_files_loop ld (pre @ f # post) acc =
     (False, acc @ map (\<lambda>g. fst (snd (ld g))) (pre @ [f]))"
  by (induction pre arbitrary: acc) (auto split: prod.splits)

lemma open_files_loop_some_failure:
  "\<exists>f\<in>set filenames. \<not> fst (ld f) \<Longrightarrow> fst (open_files_loop ld filenames acc) = False"
  by (induction filenames arbitrary: acc) (auto simp: Let_def split: prod.splits)

text \<open>
  C10. \<^verbatim>\<open>open_files\<close> discards what \<^verbatim>\<open>rulesfiles\<close> held. If every file loads it returns
  true, one entry per file name in order, and the empty error string. Otherwise it stops
  at the first file whose load fails: it returns false, the entries of the files before
  it followed by the entry of the failed file and none for the files after it, and the
  caller's error string as it was passed in (the error of the load is written to the
  variable declared in the loop body).
\<close>

theorem open_files_stops_at_first_failure:
  "((\<forall>f\<in>set filenames. fst (ld f)) \<longrightarrow>
      open_files ld filenames rulesfiles errstr =
        (True, map (\<lambda>f. fst (snd (ld f))) filenames, []))
   \<and> (\<forall>pre f post.
         filenames = pre @ f # post \<and> (\<forall>g\<in>set pre. fst (ld g)) \<and> \<not> fst (ld f) \<longrightarrow>
           open_files ld filenames rulesfiles errstr =
             (False, map (\<lambda>g. fst (snd (ld g))) (pre @ [f]), errstr))
   \<and> ((\<exists>f\<in>set filenames. \<not> fst (ld f)) \<longrightarrow>
         fst (open_files ld filenames rulesfiles errstr) = False
         \<and> snd (snd (open_files ld filenames rulesfiles errstr)) = errstr)
   \<and> open_files ld filenames rulesfiles errstr = open_files ld filenames [] errstr"
proof -
  have all_loaded: "open_files ld filenames rulesfiles errstr =
        (True, map (\<lambda>f. fst (snd (ld f))) filenames, [])"
    if "\<forall>f\<in>set filenames. fst (ld f)"
    using open_files_loop_all_loaded [OF that, of "[]"] by (simp add: open_files_def)
  have first_failure: "open_files ld filenames rulesfiles errstr =
             (False, map (\<lambda>g. fst (snd (ld g))) (pre @ [f]), errstr)"
    if "filenames = pre @ f # post \<and> (\<forall>g\<in>set pre. fst (ld g)) \<and> \<not> fst (ld f)" for pre f post
  proof -
    from that have pre: "\<forall>g\<in>set pre. fst (ld g)" and f: "\<not> fst (ld f)"
      and eq: "filenames = pre @ f # post"
      by blast+
    have "open_files_loop ld filenames [] =
        (False, [] @ map (\<lambda>g. fst (snd (ld g))) (pre @ [f]))"
      unfolding eq using pre f by (rule open_files_loop_first_failure)
    then show ?thesis
      by (simp add: open_files_def)
  qed
  have some_failure: "fst (open_files ld filenames rulesfiles errstr) = False
         \<and> snd (snd (open_files ld filenames rulesfiles errstr)) = errstr"
    if "\<exists>f\<in>set filenames. \<not> fst (ld f)"
    using open_files_loop_some_failure [OF that, of "[]"]
    by (cases "open_files_loop ld filenames []") (simp add: open_files_def)
  have "open_files ld filenames rulesfiles errstr = open_files ld filenames [] errstr"
    by (simp add: open_files_def)
  with all_loaded first_failure some_failure show ?thesis
    by blast
qed

theorem open_files_witness:
  "open_files demo_load [''a.yaml'', ''missing.yaml'', ''c.yaml''] [good_file] ''earlier error''
     = (False,
        [\<lparr>rf_name = ''a.yaml'', rf_content = ''rule''\<rparr>,
         \<lparr>rf_name = ''missing.yaml'', rf_content = []\<rparr>],
        ''earlier error'')
   \<and> open_files demo_load [''a.yaml'', ''c.yaml''] [good_file] ''earlier error''
     = (True,
        [\<lparr>rf_name = ''a.yaml'', rf_content = ''rule''\<rparr>,
         \<lparr>rf_name = ''c.yaml'', rf_content = ''rule''\<rparr>],
        [])"
proof -
  have split: "[''a.yaml'', ''missing.yaml'', ''c.yaml''] = [''a.yaml''] @ ''missing.yaml'' # [''c.yaml'']
      \<and> (\<forall>g\<in>set [''a.yaml'']. fst (demo_load g)) \<and> \<not> fst (demo_load ''missing.yaml'')"
    by (simp add: demo_load_def)
  have loaded: "\<forall>f\<in>set [''a.yaml'', ''c.yaml'']. fst (demo_load f)"
    by (simp add: demo_load_def)
  have "open_files demo_load [''a.yaml'', ''missing.yaml'', ''c.yaml''] [good_file] ''earlier error''
      = (False, map (\<lambda>g. fst (snd (demo_load g))) ([''a.yaml''] @ [''missing.yaml'']), ''earlier error'')"
    using open_files_stops_at_first_failure
      [of "[''a.yaml'', ''missing.yaml'', ''c.yaml'']" demo_load "[good_file]" "''earlier error''"]
      split
    by blast
  moreover have "open_files demo_load [''a.yaml'', ''c.yaml''] [good_file] ''earlier error''
      = (True, map (\<lambda>f. fst (snd (demo_load f))) [''a.yaml'', ''c.yaml''], [])"
    using open_files_stops_at_first_failure
      [of "[''a.yaml'', ''c.yaml'']" demo_load "[good_file]" "''earlier error''"]
      loaded
    by blast
  ultimately show ?thesis
    by (simp add: demo_load_def)
qed

end
